theory Spec2Isabelle
  imports Complex_Main
begin

section \<open>Strings of the matcher\<close>

text \<open>
  The matcher works on Python strings. They are modelled as \<open>string\<close>, one \<open>char\<close> per
  code point, so the model covers the code points below 256 (ASCII and Latin-1); on these
  the built-in string operations used by \<open>job_matcher.py\<close> are written out below.
\<close>

definition lower_char :: "char \<Rightarrow> char" where
  \<comment> \<open>\<open>str.lower\<close> on one code point: A-Z, and the Latin-1 capitals except the
      multiplication sign, move up by 32.\<close>
  "lower_char c =
     (let n = (of_char c :: nat)
      in if (65 \<le> n \<and> n \<le> 90) \<or> (192 \<le> n \<and> n \<le> 214) \<or> (216 \<le> n \<and> n \<le> 222)
         then char_of (n + 32) else c)"

definition lower :: "string \<Rightarrow> string" where
  "lower text = map lower_char text"

definition isspace :: "char \<Rightarrow> bool" where
  \<comment> \<open>\<open>str.isspace\<close>: tab to carriage return, the four separators, space, NEL, NBSP.\<close>
  "isspace c =
     (let n = (of_char c :: nat)
      in (9 \<le> n \<and> n \<le> 13) \<or> (28 \<le> n \<and> n \<le> 32) \<or> n = 133 \<or> n = 160)"

definition punctuation :: string where
  \<comment> \<open>\<open>string.punctuation\<close>, character by character.\<close>
  "punctuation =
     [CHR 0x21, CHR 0x22, CHR 0x23, CHR 0x24, CHR 0x25, CHR 0x26, CHR 0x27, CHR 0x28,
      CHR 0x29, CHR 0x2A, CHR 0x2B, CHR 0x2C, CHR 0x2D, CHR 0x2E, CHR 0x2F,
      CHR 0x3A, CHR 0x3B, CHR 0x3C, CHR 0x3D, CHR 0x3E, CHR 0x3F, CHR 0x40,
      CHR 0x5B, CHR 0x5C, CHR 0x5D, CHR 0x5E, CHR 0x5F, CHR 0x60,
      CHR 0x7B, CHR 0x7C, CHR 0x7D, CHR 0x7E]"

type_synonym trans_table = "char \<rightharpoonup> char option"

definition maketrans :: "string \<Rightarrow> trans_table" where
  \<comment> \<open>\<open>str.maketrans('', '', z)\<close>: every character of \<open>z\<close> is mapped to \<open>None\<close> (delete).\<close>
  "maketrans z = map_of (map (\<lambda>c. (c, None)) z)"

fun translate :: "trans_table \<Rightarrow> string \<Rightarrow> string" where
  "translate tbl [] = []"
| "translate tbl (c # cs) =
     (case tbl c of
        None \<Rightarrow> c # translate tbl cs
      | Some None \<Rightarrow> translate tbl cs
      | Some (Some d) \<Rightarrow> d # translate tbl cs)"

fun split_from :: "string \<Rightarrow> string \<Rightarrow> string list" where
  \<comment> \<open>the scan of \<open>str.split()\<close>: \<open>cur\<close> is the word being read, last character first.\<close>
  "split_from cur [] = (if cur = [] then [] else [rev cur])"
| "split_from cur (c # cs) =
     (if isspace c
      then (if cur = [] then split_from [] cs else rev cur # split_from [] cs)
      else split_from (c # cur) cs)"

definition split :: "string \<Rightarrow> string list" where
  "split text = split_from [] text"

fun join :: "string \<Rightarrow> string list \<Rightarrow> string" where
  "join sep [] = []"
| "join sep [w] = w"
| "join sep (w # ws) = w @ sep @ join sep ws"

section \<open>The matcher and its text normalizer\<close>

record JobMatcher =
  stop_words :: "string set"

definition JobMatcher_init :: "string list \<Rightarrow> JobMatcher" where
  \<comment> \<open>\<open>__init__\<close>; \<open>english\<close> is the list \<open>stopwords.words('english')\<close> of the corpus.\<close>
  "JobMatcher_init english =
     \<lparr>stop_words = set english \<union>
        set [''job'', ''role'', ''position'', ''company'', ''team'', ''work'']\<rparr>"

definition preprocess_text :: "JobMatcher \<Rightarrow> string \<Rightarrow> string" where
  "preprocess_text self text =
     (let text = lower text;
          text = translate (maketrans punctuation) text;
          words = split text;
          words = filter (\<lambda>word. word \<notin> stop_words self \<and> length word > 2) words
      in join '' '' words)"

section \<open>Keyword extraction\<close>

text \<open>
  \<open>word_freq\<close> is a Python dict: it keeps its keys in the order of first insertion, and
  an assignment to an existing key leaves the key where it is. It is modelled as an
  association list with distinct keys in insertion order.
\<close>

type_synonym freq_dict = "(string \<times> nat) list"

definition dict_get :: "freq_dict \<Rightarrow> string \<Rightarrow> nat \<Rightarrow> nat" where
  \<comment> \<open>\<open>word_freq.get(word, dflt)\<close>\<close>
  "dict_get d k dflt = (case map_of d k of None \<Rightarrow> dflt | Some v \<Rightarrow> v)"

fun dict_set :: "freq_dict \<Rightarrow> string \<Rightarrow> nat \<Rightarrow> freq_dict" where
  \<comment> \<open>\<open>word_freq[word] = v\<close>\<close>
  "dict_set [] k v = [(k, v)]"
| "dict_set ((k', v') # d) k v =
     (if k' = k then (k', v) # d else (k', v') # dict_set d k v)"

fun count_words :: "freq_dict \<Rightarrow> string list \<Rightarrow> freq_dict" where
  \<comment> \<open>the loop \<open>for word in words\<close>, started with \<open>word_freq\<close>\<close>
  "count_words word_freq [] = word_freq"
| "count_words word_freq (word # words) =
     count_words (dict_set word_freq word (dict_get word_freq word 0 + 1)) words"

definition sorted_by_freq_desc :: "freq_dict \<Rightarrow> freq_dict" where
  \<comment> \<open>\<open>sorted(items, key=lambda x: x[1], reverse=True)\<close>: a stable sort, so entries of
      equal frequency keep their order; descending order is ascending order of the
      negated key.\<close>
  "sorted_by_freq_desc items = sort_key (\<lambda>x. - int (snd x)) items"

definition slice_to :: "'a list \<Rightarrow> int \<Rightarrow> 'a list" where
  \<comment> \<open>the slice \<open>xs[:n]\<close>: a negative \<open>n\<close> counts from the end of the list.\<close>
  "slice_to xs n =
     (if n < 0 then take (nat (int (length xs) + n)) xs else take (nat n) xs)"

definition extract_keywords :: "JobMatcher \<Rightarrow> string \<Rightarrow> int \<Rightarrow> string list" where
  "extract_keywords self text num_keywords =
     (let words = split text;
          word_freq = count_words [] words;
          sorted_keywords = sorted_by_freq_desc word_freq
      in map fst (slice_to sorted_keywords num_keywords))"

section \<open>Similarity score\<close>

datatype exn = FileNotFoundError | PermissionError | IsADirectoryError | ValueError | IndexError

text \<open>
  Modelled from the spec: \<open>TfidfVectorizer\<close> and \<open>cosine_similarity\<close> belong to the
  statistics library that \<open>calculate_match_score\<close> calls; the library is not part
  of the repository. The model follows section 4.3 of the specification, in exact
  real arithmetic: terms of the two-document corpus after the vectorizer's own English
  stopword filter, at most \<open>max_features\<close> terms ranked by corpus frequency, weights
  \<open>tf * (ln ((1 + n) / (1 + df)) + 1)\<close>, every document vector scaled to Euclidean length
  1 (a zero vector is left as it is), and the cosine as the dot product of the scaled
  vectors. An empty vocabulary is the library's \<open>ValueError\<close>. The vectorizer lowercases
  a document and takes as tokens the runs of two or more word characters (the library's
  default token pattern). The library's English stopword list is a parameter.
\<close>

record TfidfVectorizer =
  v_stop_words :: "string set"
  max_features :: nat

definition is_word_char :: "char \<Rightarrow> bool" where
  \<comment> \<open>letters, digits and the underscore, for the code points below 256\<close>
  "is_word_char c =
     (let n = (of_char c :: nat)
      in (48 \<le> n \<and> n \<le> 57) \<or> (65 \<le> n \<and> n \<le> 90) \<or> n = 95 \<or> (97 \<le> n \<and> n \<le> 122)
         \<or> n = 170 \<or> n = 178 \<or> n = 179 \<or> n = 181 \<or> n = 185 \<or> n = 186
         \<or> (188 \<le> n \<and> n \<le> 190) \<or> (192 \<le> n \<and> n \<le> 214) \<or> (216 \<le> n \<and> n \<le> 246)
         \<or> 248 \<le> n)"

fun word_runs :: "string \<Rightarrow> string \<Rightarrow> string list" where
  \<comment> \<open>the maximal runs of word characters; \<open>cur\<close> is the run being read, last first.\<close>
  "word_runs cur [] = (if cur = [] then [] else [rev cur])"
| "word_runs cur (c # cs) =
     (if is_word_char c then word_runs (c # cur) cs
      else (if cur = [] then word_runs [] cs else rev cur # word_runs [] cs))"

definition analyze :: "TfidfVectorizer \<Rightarrow> string \<Rightarrow> string list" where
  \<comment> \<open>Modelled from the spec: the terms of a document inside the vectorizer, after its own stopword filter\<close>
  "analyze v doc =
     filter (\<lambda>t. t \<notin> v_stop_words v)
       (filter (\<lambda>t. length t \<ge> 2) (word_runs [] (lower doc)))"

definition vocabulary :: "TfidfVectorizer \<Rightarrow> string list \<Rightarrow> string list" where
  \<comment> \<open>Modelled from the spec: the at most \<open>max_features\<close> terms of the corpus, most frequent first\<close>
  "vocabulary v docs =
     (let terms = concat (map (analyze v) docs)
      in take (max_features v)
           (sort_key (\<lambda>t. - int (count_list terms t)) (remdups terms)))"

definition idf :: "nat \<Rightarrow> nat \<Rightarrow> real" where
  \<comment> \<open>Modelled from the spec: the smoothed inverse document frequency of section 4.3\<close>
  "idf n df = ln ((1 + real n) / (1 + real df)) + 1"

definition doc_freq :: "string list list \<Rightarrow> string \<Rightarrow> nat" where
  \<comment> \<open>Modelled from the spec: the number of documents that contain the term\<close>
  "doc_freq tss t = length (filter (\<lambda>ts. t \<in> set ts) tss)"

definition dot :: "real list \<Rightarrow> real list \<Rightarrow> real" where
  "dot x y = sum_list (map2 (*) x y)"

definition l2_normalize :: "real list \<Rightarrow> real list" where
  "l2_normalize x =
     (let norm = sqrt (dot x x)
      in if norm = 0 then x else map (\<lambda>a. a / norm) x)"

definition fit_transform :: "TfidfVectorizer \<Rightarrow> string list \<Rightarrow> exn + real list list" where
  \<comment> \<open>Modelled from the spec: the TF-IDF rows of the documents, each of Euclidean length 1; an empty
      vocabulary is the \<open>ValueError\<close> of the library\<close>
  "fit_transform v docs =
     (let tss = map (analyze v) docs;
          vocab = vocabulary v docs
      in if vocab = [] then Inl ValueError
         else Inr (map (\<lambda>ts. l2_normalize
                     (map (\<lambda>t. real (count_list ts t) * idf (length docs) (doc_freq tss t)) vocab))
                   tss))"

definition cosine_similarity :: "real list list \<Rightarrow> real list list \<Rightarrow> real list list" where
  \<comment> \<open>the matrix of the cosines of every row of \<open>X\<close> with every row of \<open>Y\<close>\<close>
  "cosine_similarity X Y =
     map (\<lambda>x. map (\<lambda>y. dot (l2_normalize x) (l2_normalize y)) Y) X"

definition rows :: "'a list \<Rightarrow> nat \<Rightarrow> nat \<Rightarrow> 'a list" where
  \<comment> \<open>the slice \<open>m[i:j]\<close> for indices that are not negative\<close>
  "rows m i j = take (j - i) (drop i m)"

definition calculate_match_score ::
  "JobMatcher \<Rightarrow> string set \<Rightarrow> string \<Rightarrow> string \<Rightarrow> exn + real" where
  \<comment> \<open>\<open>lib_english\<close> is the list that \<open>stop_words='english'\<close> selects in the library.\<close>
  "calculate_match_score self lib_english resume_text job_text =
     (let vectorizer = \<lparr>v_stop_words = lib_english, max_features = 100\<rparr>
      in case fit_transform vectorizer [resume_text, job_text] of
           Inl ValueError \<Rightarrow> Inr 0
         | Inl e \<Rightarrow> Inl e
         | Inr tfidf_matrix \<Rightarrow>
             (case cosine_similarity (rows tfidf_matrix 0 1) (rows tfidf_matrix 1 2) of
                (similarity # _) # _ \<Rightarrow> Inr similarity
              | _ \<Rightarrow> Inl IndexError))"

section \<open>Skill sets\<close>

text \<open>
  Both comparisons return \<open>list(s)\<close> for a Python set \<open>s\<close>; the order in which a set is
  listed is not determined by the program, so the model returns the set itself.
\<close>

definition find_matched_skills :: "JobMatcher \<Rightarrow> string list \<Rightarrow> string list \<Rightarrow> string set" where
  "find_matched_skills self resume_keywords job_keywords =
     (let resume_set = set resume_keywords;
          job_set = set job_keywords
      in resume_set \<inter> job_set)"

definition find_missing_skills :: "JobMatcher \<Rightarrow> string list \<Rightarrow> string list \<Rightarrow> string set" where
  "find_missing_skills self resume_keywords job_keywords =
     (let resume_set = set resume_keywords;
          job_set = set job_keywords
      in job_set - resume_set)"

section \<open>Files and the matching pipeline\<close>

text \<open>
  The file system is the function that gives, for a path, what opening and reading the
  file does: the decoded text, or the exception raised. Standard output is the list of
  the lines printed so far.
\<close>

type_synonym filesystem = "string \<Rightarrow> exn + string"

definition load_file ::
  "JobMatcher \<Rightarrow> filesystem \<Rightarrow> string \<Rightarrow> string list \<Rightarrow> (exn + string) \<times> string list" where
  "load_file self fs file_path out =
     (case fs file_path of
        Inr content \<Rightarrow> (Inr content, out)
      | Inl FileNotFoundError \<Rightarrow>
          (Inr [], out @ [''Error: File '' @ [CHR 0x27] @ file_path @ [CHR 0x27] @ '' not found.''])
      | Inl e \<Rightarrow> (Inl e, out))"

record MatchResult =
  match_score :: real
  match_percentage :: real
  matched_skills :: "string set"
  missing_skills :: "string set"
  resume_keywords :: "string list"
  job_keywords :: "string list"

definition match ::
  "JobMatcher \<Rightarrow> string set \<Rightarrow> filesystem \<Rightarrow> string \<Rightarrow> string \<Rightarrow> string list
     \<Rightarrow> (exn + MatchResult option) \<times> string list" where
  "match self lib_english fs resume_path job_path out =
     (case load_file self fs resume_path out of
        (Inl e, out1) \<Rightarrow> (Inl e, out1)
      | (Inr resume_text, out1) \<Rightarrow>
     (case load_file self fs job_path out1 of
        (Inl e, out2) \<Rightarrow> (Inl e, out2)
      | (Inr job_text, out2) \<Rightarrow>
          if resume_text = [] \<or> job_text = [] then (Inr None, out2)
          else
            let resume_processed = preprocess_text self resume_text;
                job_processed = preprocess_text self job_text;
                resume_kw = extract_keywords self resume_processed 30;
                job_kw = extract_keywords self job_processed 30
            in (case calculate_match_score self lib_english resume_processed job_processed of
                  Inl e \<Rightarrow> (Inl e, out2)
                | Inr score \<Rightarrow>
                    (Inr (Some \<lparr>match_score = score,
                                match_percentage = score * 100,
                                matched_skills = find_matched_skills self resume_kw job_kw,
                                missing_skills = find_missing_skills self resume_kw job_kw,
                                resume_keywords = resume_kw,
                                job_keywords = job_kw\<rparr>), out2))))"

text \<open>
  A matcher in use: the object and the standard output. \<open>call\<close> lists the methods of
  the class with their arguments, and \<open>run\<close> is the state after a call; the value a
  method returns is not part of the state.
\<close>

record session =
  matcher :: JobMatcher
  stdout :: "string list"

datatype call =
    LoadFile string
  | PreprocessText string
  | ExtractKeywords string int
  | CalculateMatchScore string string
  | FindMatchedSkills "string list" "string list"
  | FindMissingSkills "string list" "string list"
  | Match string string

fun run :: "string set \<Rightarrow> filesystem \<Rightarrow> session \<Rightarrow> call \<Rightarrow> session" where
  "run lib fs s (LoadFile p) = s\<lparr>stdout := snd (load_file (matcher s) fs p (stdout s))\<rparr>"
| "run lib fs s (PreprocessText t) = s"
| "run lib fs s (ExtractKeywords t n) = s"
| "run lib fs s (CalculateMatchScore a b) = s"
| "run lib fs s (FindMatchedSkills a b) = s"
| "run lib fs s (FindMissingSkills a b) = s"
| "run lib fs s (Match rp jp) = s\<lparr>stdout := snd (match (matcher s) lib fs rp jp (stdout s))\<rparr>"

text \<open>
  A file system given by a listing: a path that is not listed does not exist.
\<close>

definition fs_of :: "(string \<times> (exn + string)) list \<Rightarrow> filesystem" where
  "fs_of entries path =
     (case map_of entries path of None \<Rightarrow> Inl FileNotFoundError | Some r \<Rightarrow> r)"

section \<open>The normalizer as the specification words it\<close>

definition ascii_punct :: "char \<Rightarrow> bool" where
  \<comment> \<open>the ASCII punctuation class: the printable ASCII characters that are neither
      letters, digits nor the space\<close>
  "ascii_punct c =
     (let n = (of_char c :: nat)
      in (33 \<le> n \<and> n \<le> 47) \<or> (58 \<le> n \<and> n \<le> 64) \<or> (91 \<le> n \<and> n \<le> 96)
         \<or> (123 \<le> n \<and> n \<le> 126))"

definition normalize_spec :: "string set \<Rightarrow> string \<Rightarrow> string" where
  \<comment> \<open>steps (a) to (e) of section 4.1\<close>
  "normalize_spec stopword_set text =
     (let lowered = map lower_char text;
          stripped = filter (\<lambda>c. \<not> ascii_punct c) lowered;
          tokens = split stripped;
          surviving = filter (\<lambda>t. \<not> (t \<in> stopword_set \<or> length t \<le> 2)) tokens
      in join '' '' surviving)"

section \<open>Facts about the string operations\<close>

lemma lower_char_unfold:
  "lower_char d =
     (if (65 \<le> (of_char d :: nat) \<and> (of_char d :: nat) \<le> 90)
         \<or> (192 \<le> (of_char d :: nat) \<and> (of_char d :: nat) \<le> 214)
         \<or> (216 \<le> (of_char d :: nat) \<and> (of_char d :: nat) \<le> 222)
      then char_of ((of_char d :: nat) + 32) else d)"
  by (simp only: lower_char_def Let_def)

lemma lower_char_idem: "lower_char (lower_char c) = lower_char c"
proof -
  define n where "n = (of_char c :: nat)"
  show ?thesis
  proof (cases "(65 \<le> n \<and> n \<le> 90) \<or> (192 \<le> n \<and> n \<le> 214) \<or> (216 \<le> n \<and> n \<le> 222)")
    case True
    then have l: "lower_char c = char_of (n + 32)"
      unfolding n_def by (subst lower_char_unfold) (simp only: if_True)
    from True have "n + 32 < 256" by arith
    then have o: "(of_char (char_of (n + 32)) :: nat) = n + 32"
      by (simp only: of_char_of mod_less)
    from True have "\<not> ((65 \<le> n + 32 \<and> n + 32 \<le> 90) \<or> (192 \<le> n + 32 \<and> n + 32 \<le> 214)
        \<or> (216 \<le> n + 32 \<and> n + 32 \<le> 222))" by arith
    then have "lower_char (char_of (n + 32)) = char_of (n + 32)"
      by (subst lower_char_unfold) (simp only: o if_False)
    then show ?thesis by (simp only: l)
  next
    case False
    then have "lower_char c = c"
      unfolding n_def by (subst lower_char_unfold) (simp only: if_False)
    then show ?thesis by simp
  qed
qed

lemma lower_char_space: "lower_char CHR '' '' = CHR '' ''"
  by (simp add: lower_char_def)

lemma isspace_space: "isspace CHR '' ''"
  by (simp add: isspace_def)

lemma space_not_punct: "CHR '' '' \<notin> set punctuation"
  by (simp add: punctuation_def)

lemma maketrans_apply: "maketrans z c = (if c \<in> set z then Some None else None)"
  by (induction z) (auto simp: maketrans_def)

lemma translate_maketrans: "translate (maketrans z) s = filter (\<lambda>c. c \<notin> set z) s"
  by (induction s) (simp_all add: maketrans_apply)

lemma split_from_nonempty: "w \<in> set (split_from cur s) \<Longrightarrow> w \<noteq> []"
proof (induction s arbitrary: cur)
  case Nil
  then show ?case by (cases "cur = []") simp_all
next
  case (Cons c cs)
  show ?case
  proof (cases "isspace c")
    case False
    with Cons.prems have "w \<in> set (split_from (c # cur) cs)" by simp
    then show ?thesis by (rule Cons.IH)
  next
    case True
    show ?thesis
    proof (cases "cur = []")
      case True
      with \<open>isspace c\<close> Cons.prems have "w \<in> set (split_from [] cs)" by simp
      then show ?thesis by (rule Cons.IH)
    next
      case False
      with \<open>isspace c\<close> Cons.prems have "w = rev cur \<or> w \<in> set (split_from [] cs)" by simp
      then show ?thesis using False Cons.IH by auto
    qed
  qed
qed

lemma split_from_chars:
  "w \<in> set (split_from cur s) \<Longrightarrow> x \<in> set w \<Longrightarrow> x \<in> set cur \<union> {c \<in> set s. \<not> isspace c}"
proof (induction s arbitrary: cur)
  case Nil
  then show ?case by (cases "cur = []") simp_all
next
  case (Cons c cs)
  show ?case
  proof (cases "isspace c")
    case False
    with Cons.prems have "w \<in> set (split_from (c # cur) cs)" by simp
    from Cons.IH [OF this Cons.prems(2)] False show ?thesis by auto
  next
    case True
    show ?thesis
    proof (cases "cur = []")
      case True
      with \<open>isspace c\<close> Cons.prems have "w \<in> set (split_from [] cs)" by simp
      from Cons.IH [OF this Cons.prems(2)] show ?thesis by auto
    next
      case False
      with \<open>isspace c\<close> Cons.prems have "w = rev cur \<or> w \<in> set (split_from [] cs)" by simp
      then show ?thesis
      proof
        assume "w = rev cur"
        with Cons.prems(2) show ?thesis by simp
      next
        assume "w \<in> set (split_from [] cs)"
        from Cons.IH [OF this Cons.prems(2)] show ?thesis by auto
      qed
    qed
  qed
qed

lemma split_tokens:
  "w \<in> set (split s) \<Longrightarrow> w \<noteq> [] \<and> (\<forall>c\<in>set w. \<not> isspace c \<and> c \<in> set s)"
  using split_from_nonempty [of w "[]" s] split_from_chars [of w "[]" s]
  unfolding split_def by auto

lemma split_from_word:
  "\<forall>c\<in>set w. \<not> isspace c \<Longrightarrow> split_from cur (w @ s) = split_from (rev w @ cur) s"
  by (induction w arbitrary: cur) simp_all

lemma split_join:
  "\<forall>w\<in>set ws. w \<noteq> [] \<and> (\<forall>c\<in>set w. \<not> isspace c) \<Longrightarrow> split (join '' '' ws) = ws"
proof (induction "'' ''" ws rule: join.induct)
  case 1
  then show ?case by (simp add: split_def)
next
  case (2 w)
  then show ?case using split_from_word [of w "[]" "[]"] by (simp add: split_def)
next
  case (3 w v va)
  then have "split (join '' '' (v # va)) = v # va" by simp
  moreover have "split_from [] (w @ CHR '' '' # join '' '' (v # va))
      = w # split_from [] (join '' '' (v # va))"
    using 3 split_from_word [of w "[]" "CHR '' '' # join '' '' (v # va)"]
    by (simp add: isspace_space)
  ultimately show ?case by (simp add: split_def)
qed

lemma set_join: "set (join '' '' ws) \<subseteq> insert CHR '' '' (\<Union>(set ` set ws))"
  by (induction "'' ''" ws rule: join.induct) auto

lemma map_id_on: "\<forall>c\<in>set s. f c = c \<Longrightarrow> map f s = s"
  by (induction s) simp_all

lemma filter_id_on: "\<forall>c\<in>set s. P c \<Longrightarrow> filter P s = s"
  by (induction s) simp_all

lemma lower_fixed: "c \<in> set (lower text) \<Longrightarrow> lower_char c = c"
proof -
  assume "c \<in> set (lower text)"
  then obtain d where "c = lower_char d" unfolding lower_def by (auto simp only: set_map)
  then show ?thesis by (simp only: lower_char_idem)
qed

lemma token_chars:
  assumes "w \<in> set (filter keep (split (translate (maketrans punctuation) (lower text))))"
  shows "w \<noteq> [] \<and> (\<forall>c\<in>set w. \<not> isspace c \<and> lower_char c = c \<and> c \<notin> set punctuation)"
proof -
  from assms have "w \<in> set (split (filter (\<lambda>c. c \<notin> set punctuation) (lower text)))"
    by (simp only: translate_maketrans set_filter mem_Collect_eq)
  from split_tokens [OF this]
  have ne: "w \<noteq> []"
    and cs: "\<And>c. c \<in> set w \<Longrightarrow> \<not> isspace c \<and> c \<in> set (filter (\<lambda>c. c \<notin> set punctuation) (lower text))"
    by blast+
  have "\<not> isspace c \<and> lower_char c = c \<and> c \<notin> set punctuation" if "c \<in> set w" for c
  proof -
    from cs [OF that] have a: "\<not> isspace c"
      and m: "c \<in> set (filter (\<lambda>c. c \<notin> set punctuation) (lower text))" by blast+
    from m have b: "c \<notin> set punctuation" and "c \<in> set (lower text)"
      unfolding set_filter mem_Collect_eq by blast+
    then have "lower_char c = c" by (intro lower_fixed)
    with a b show ?thesis by blast
  qed
  with ne show ?thesis by blast
qed

lemma join_chars:
  assumes "c \<in> set (join '' '' ws)"
  shows "c = CHR '' '' \<or> (\<exists>w\<in>set ws. c \<in> set w)"
  using set_join [of ws] assms by blast

text \<open>
  Claim C3: normalizing a normalized text changes nothing, for every matcher and every
  input text: \<open>preprocess_text\<close> applied twice gives what it gives applied once.
\<close>

theorem preprocess_text_idempotent: "preprocess_text self (preprocess_text self text) = preprocess_text self text"
proof -
  define keep where "keep = (\<lambda>word. word \<notin> stop_words self \<and> length word > 2)"
  define ws where "ws = filter keep (split (translate (maketrans punctuation) (lower text)))"
  define y where "y = join '' '' ws"
  have pp: "preprocess_text self t = join '' '' (filter keep (split (translate (maketrans punctuation) (lower t))))" for t
    unfolding preprocess_text_def Let_def keep_def ..
  have y: "preprocess_text self text = y"
    unfolding pp y_def ws_def ..
  have cy: "lower_char c = c \<and> c \<notin> set punctuation" if "c \<in> set y" for c
  proof -
    from that have "c = CHR '' '' \<or> (\<exists>w\<in>set ws. c \<in> set w)"
      unfolding y_def by (rule join_chars)
    then show ?thesis
    proof
      assume "c = CHR '' ''"
      then show ?thesis by (simp only: lower_char_space space_not_punct simp_thms)
    next
      assume "\<exists>w\<in>set ws. c \<in> set w"
      then obtain w where w: "w \<in> set ws" and c: "c \<in> set w" by blast
      from w have "w \<noteq> [] \<and> (\<forall>c\<in>set w. \<not> isspace c \<and> lower_char c = c \<and> c \<notin> set punctuation)"
        unfolding ws_def by (rule token_chars)
      with c show ?thesis by blast
    qed
  qed
  have 1: "lower y = y"
    unfolding lower_def
  proof (rule map_id_on, rule ballI)
    fix c assume "c \<in> set y"
    from cy [OF this] show "lower_char c = c" by blast
  qed
  have 2: "translate (maketrans punctuation) y = y"
    unfolding translate_maketrans
  proof (rule filter_id_on, rule ballI)
    fix c assume "c \<in> set y"
    from cy [OF this] show "c \<notin> set punctuation" by blast
  qed
  have 3: "split y = ws"
    unfolding y_def
  proof (rule split_join, intro ballI conjI)
    fix w assume "w \<in> set ws"
    then show "w \<noteq> []" unfolding ws_def using token_chars by blast
  next
    fix w c assume "w \<in> set ws" "c \<in> set w"
    then show "\<not> isspace c" unfolding ws_def using token_chars by blast
  qed
  have 4: "filter keep ws = ws"
    unfolding ws_def by simp
  have "preprocess_text self y = join '' '' (filter keep (split (translate (maketrans punctuation) (lower y))))"
    by (rule pp)
  also have "\<dots> = join '' '' (filter keep ws)" by (simp only: 1 2 3)
  also have "\<dots> = y" by (simp only: 4 y_def)
  finally show ?thesis by (simp only: y)
qed


lemma punctuation_ascii_punct: "c \<in> set punctuation \<longleftrightarrow> ascii_punct c"
  by (cases c) (simp add: punctuation_def ascii_punct_def Let_def)

theorem preprocess_text_idempotent_witness:
  "preprocess_text (JobMatcher_init [''the'', ''and'', ''with''])
     (preprocess_text (JobMatcher_init [''the'', ''and'', ''with'']) ''Python Developer, with SQL and the AWS work!'')
   = ''python developer sql aws''"
proof -
  have "preprocess_text (JobMatcher_init [''the'', ''and'', ''with'']) ''Python Developer, with SQL and the AWS work!''
        = ''python developer sql aws''"
    by code_simp
  with preprocess_text_idempotent
         [of "JobMatcher_init [''the'', ''and'', ''with'']" "''Python Developer, with SQL and the AWS work!''"]
  show ?thesis by simp
qed

text \<open>
  Claim C8: for every matcher and every input text, \<open>preprocess_text\<close> returns what the
  steps of the specification give: the text lowercased, its ASCII punctuation removed,
  split on whitespace, without the tokens that are stopwords or have at most two
  characters, joined with single spaces. It is a total function, and the empty text
  gives the empty text.
\<close>

theorem preprocess_text_refines_spec:
  "preprocess_text self text = normalize_spec (stop_words self) text
   \<and> preprocess_text self [] = []"
proof
  have f: "filter (\<lambda>c. c \<notin> set punctuation) s = filter (\<lambda>c. \<not> ascii_punct c) s" for s
    by (simp only: punctuation_ascii_punct)
  have g: "(\<lambda>word. word \<notin> stop_words self \<and> length word > 2)
           = (\<lambda>t. \<not> (t \<in> stop_words self \<or> length t \<le> 2))"
    by (rule ext) auto
  show "preprocess_text self text = normalize_spec (stop_words self) text"
    unfolding preprocess_text_def normalize_spec_def Let_def translate_maketrans lower_def f g ..
  show "preprocess_text self [] = []"
    by (simp add: preprocess_text_def lower_def split_def)
qed

theorem preprocess_text_refines_spec_witness:
  "normalize_spec (stop_words (JobMatcher_init [''the'', ''for'']))
     ''Looking for the C++/Go team: 10 years!'' = ''looking cgo years''
   \<and> preprocess_text (JobMatcher_init [''the'', ''for'']) [] = []"
proof -
  have "preprocess_text (JobMatcher_init [''the'', ''for'']) ''Looking for the C++/Go team: 10 years!''
        = ''looking cgo years''"
    by code_simp
  with preprocess_text_refines_spec
         [of "JobMatcher_init [''the'', ''for'']" "''Looking for the C++/Go team: 10 years!''"]
  show ?thesis by simp
qed


section \<open>Keywords, skill sets and the stopword set\<close>

lemma dict_set_keys:
  "map fst (dict_set d k v) = (if k \<in> set (map fst d) then map fst d else map fst d @ [k])"
  by (induction d) force+

lemma dict_set_distinct: "distinct (map fst d) \<Longrightarrow> distinct (map fst (dict_set d k v))"
  by (simp add: dict_set_keys)

lemma count_words_distinct:
  "distinct (map fst d) \<Longrightarrow> distinct (map fst (count_words d ws))"
  by (induction ws arbitrary: d) (simp_all add: dict_set_distinct)

lemma sorted_by_freq_desc_distinct:
  "distinct (map fst d) \<Longrightarrow> distinct (map fst (sorted_by_freq_desc d))"
  by (simp add: sorted_by_freq_desc_def distinct_map)

lemma slice_to_distinct: "distinct (map f xs) \<Longrightarrow> distinct (map f (slice_to xs n))"
  by (simp add: slice_to_def take_map [symmetric])

lemma slice_to_length: "0 \<le> n \<Longrightarrow> int (length (slice_to xs n)) \<le> n"
  by (simp add: slice_to_def)

lemma extract_keywords_distinct: "distinct (extract_keywords self text n)"
  unfolding extract_keywords_def Let_def
  by (intro slice_to_distinct sorted_by_freq_desc_distinct count_words_distinct) simp

text \<open>
  Claim C4, as stated, for every limit: with three distinct words and the limit \<open>-1\<close> the
  slice \<open>[:-1]\<close> drops the last entry only, so two keywords are returned, which is more
  than the limit.
\<close>

theorem extract_keywords_limit_counterexample:
  "\<not> int (length (extract_keywords (JobMatcher_init []) ''aaa bbb ccc'' (- 1))) \<le> - 1"
proof -
  have "extract_keywords (JobMatcher_init []) ''aaa bbb ccc'' (- 1) = [''aaa'', ''bbb'']"
    by code_simp
  then show ?thesis by simp
qed

text \<open>
  Claim C4, amended: for every input text, \<open>extract_keywords\<close> returns at most \<open>limit\<close>
  entries whenever the limit is not negative; for every limit the returned tokens are
  pairwise different, and the empty text gives the empty list. The function is total.
\<close>

theorem extract_keywords_bounded_distinct:
  "(0 \<le> limit \<longrightarrow> int (length (extract_keywords self text limit)) \<le> limit)
   \<and> distinct (extract_keywords self text limit)
   \<and> extract_keywords self [] limit = []"
proof (intro conjI impI)
  assume "0 \<le> limit"
  then show "int (length (extract_keywords self text limit)) \<le> limit"
    unfolding extract_keywords_def Let_def length_map by (rule slice_to_length)
next
  show "distinct (extract_keywords self text limit)"
    by (rule extract_keywords_distinct)
next
  show "extract_keywords self [] limit = []"
    by (simp add: extract_keywords_def split_def sorted_by_freq_desc_def slice_to_def)
qed

theorem extract_keywords_bounded_distinct_witness:
  "(0::int) \<le> 2
   \<and> extract_keywords (JobMatcher_init []) ''sql python aws python sql java'' 2 = [''sql'', ''python'']
   \<and> int (length (extract_keywords (JobMatcher_init []) ''sql python aws python sql java'' 2)) \<le> 2
   \<and> distinct (extract_keywords (JobMatcher_init []) ''sql python aws python sql java'' 2)"
proof -
  have "extract_keywords (JobMatcher_init []) ''sql python aws python sql java'' 2 = [''sql'', ''python'']"
    by code_simp
  with extract_keywords_bounded_distinct
         [of 2 "JobMatcher_init []" "''sql python aws python sql java''"]
  show ?thesis by simp
qed

text \<open>
  Claim C5: for all keyword lists \<open>A\<close> and \<open>B\<close>, the matched skills of \<open>A\<close> and \<open>B\<close> are the
  matched skills of \<open>B\<close> and \<open>A\<close>; the missing skills are the keywords of the second list
  (the job) that are not in the first (the resume); and no skill is missing between a
  list and itself.
\<close>

theorem skill_sets_symmetric_and_difference:
  "find_matched_skills self A B = find_matched_skills self B A
   \<and> find_missing_skills self A B = set B - set A
   \<and> find_missing_skills self A A = {}"
  by (auto simp: find_matched_skills_def find_missing_skills_def Let_def)

theorem skill_sets_symmetric_and_difference_witness:
  "find_matched_skills (JobMatcher_init []) [''python'', ''sql'', ''years''] [''sql'', ''aws'', ''python'']
     = find_matched_skills (JobMatcher_init []) [''sql'', ''aws'', ''python''] [''python'', ''sql'', ''years'']
   \<and> find_missing_skills (JobMatcher_init []) [''python'', ''sql'', ''years''] [''sql'', ''aws'', ''python'']
     = {''aws''}"
  using skill_sets_symmetric_and_difference
          [of "JobMatcher_init []" "[''python'', ''sql'', ''years'']" "[''sql'', ''aws'', ''python'']"]
  by auto

lemma run_matcher: "matcher (run lib fs s c) = matcher s"
  by (cases c) simp_all

lemma runs_matcher: "matcher (foldl (run lib fs) s cs) = matcher s"
  by (induction cs arbitrary: s) (simp_all add: run_matcher)

text \<open>
  Claim C9: no method call changes the stopword set of the matcher, and after any
  sequence of calls on a freshly constructed matcher the set is still the one built by
  the constructor: the corpus list and the six domain words.
\<close>

theorem stop_words_never_modified:
  "stop_words (matcher (run lib fs s c)) = stop_words (matcher s)
   \<and> stop_words (matcher (foldl (run lib fs) \<lparr>matcher = JobMatcher_init english, stdout = out\<rparr> cs))
     = set english \<union> {''job'', ''role'', ''position'', ''company'', ''team'', ''work''}"
  by (simp add: run_matcher runs_matcher JobMatcher_init_def)

theorem stop_words_never_modified_witness:
  "stop_words (matcher (foldl (run {''system''} (\<lambda>p. Inl FileNotFoundError))
      \<lparr>matcher = JobMatcher_init [''the''], stdout = []\<rparr>
      [Match ''resume.txt'' ''job.txt'', PreprocessText ''The Team'', LoadFile ''job.txt'']))
   = {''job'', ''role'', ''position'', ''company'', ''team'', ''work'', ''the''}"
  using stop_words_never_modified
          [of "{''system''}" "\<lambda>p. Inl FileNotFoundError"
              "\<lparr>matcher = JobMatcher_init [''the''], stdout = []\<rparr>" "LoadFile ''job.txt''" "[''the'']" "[]"
              "[Match ''resume.txt'' ''job.txt'', PreprocessText ''The Team'', LoadFile ''job.txt'']"]
  by simp


section \<open>Loading files and the no-result sentinel\<close>

lemma load_file_self: "load_file self fs p out = load_file self' fs p out"
  by (simp add: load_file_def)

lemma load_file_found: "fs p = Inr content \<Longrightarrow> load_file self fs p out = (Inr content, out)"
  by (simp add: load_file_def)

lemma load_file_missing:
  "fs p = Inl FileNotFoundError \<Longrightarrow>
     load_file self fs p out
       = (Inr [], out @ [''Error: File '' @ [CHR 0x27] @ p @ [CHR 0x27] @ '' not found.''])"
  by (simp add: load_file_def)

lemma load_file_raises:
  "fs p = Inl e \<Longrightarrow> e \<noteq> FileNotFoundError \<Longrightarrow> load_file self fs p out = (Inl e, out)"
  by (cases e) (simp_all add: load_file_def)

lemma load_file_no_raise:
  assumes "\<forall>e. fs p = Inl e \<longrightarrow> e = FileNotFoundError"
  shows "\<exists>out'. load_file self fs p out
            = (Inr (case fs p of Inr content \<Rightarrow> content | Inl e \<Rightarrow> []), out')"
proof (cases "fs p")
  case (Inl e)
  with assms have "fs p = Inl FileNotFoundError" by simp
  then show ?thesis by (simp add: load_file_missing)
next
  case (Inr content)
  then show ?thesis by (simp add: load_file_found)
qed

lemma match_sentinel:
  assumes r: "\<forall>e. fs resume_path = Inl e \<longrightarrow> e = FileNotFoundError"
    and j: "\<forall>e. fs job_path = Inl e \<longrightarrow> e = FileNotFoundError"
    and "(case fs resume_path of Inr content \<Rightarrow> content | Inl e \<Rightarrow> []) = []
         \<or> (case fs job_path of Inr content \<Rightarrow> content | Inl e \<Rightarrow> []) = []"
  shows "match self lib fs resume_path job_path out
           = (Inr None, snd (load_file self fs job_path (snd (load_file self fs resume_path out))))"
proof -
  from load_file_no_raise [where fs=fs and p=resume_path, OF r] obtain out1 where
    1: "load_file self fs resume_path out
          = (Inr (case fs resume_path of Inr content \<Rightarrow> content | Inl e \<Rightarrow> []), out1)"
    by blast
  from load_file_no_raise [where fs=fs and p=job_path, OF j] obtain out2 where
    2: "load_file self fs job_path out1
          = (Inr (case fs job_path of Inr content \<Rightarrow> content | Inl e \<Rightarrow> []), out2)"
    by blast
  from assms(3) show ?thesis
    by (simp add: match_def 1 2)
qed

text \<open>
  Claim C2, as stated, for every pair of paths: the resume does not exist and the job
  path is a directory. \<open>load_file\<close> catches \<open>FileNotFoundError\<close> only, and \<open>match\<close> reads the
  second file after the first one was found missing, so the exception of the second
  read leaves \<open>match\<close>: there is no sentinel.
\<close>

theorem match_missing_file_counterexample:
  "fs_of [(''jobs'', Inl IsADirectoryError)] ''resume.txt'' = Inl FileNotFoundError
   \<and> fst (match (JobMatcher_init []) {} (fs_of [(''jobs'', Inl IsADirectoryError)])
            ''resume.txt'' ''jobs'' []) = Inl IsADirectoryError"
  by (simp add: match_def load_file_def fs_of_def)

text \<open>
  Claim C2, amended: for every pair of paths whose reads raise nothing but
  \<open>FileNotFoundError\<close>, if either file is missing then \<open>match\<close> returns the sentinel \<open>None\<close>
  and raises nothing. Nothing of the pipeline runs for that attempt: the outcome and the
  output are the same for every matcher and every scorer configuration.
\<close>

theorem match_missing_file_sentinel:
  assumes "fs resume_path = Inl FileNotFoundError \<or> fs job_path = Inl FileNotFoundError"
    and "\<forall>e. fs resume_path = Inl e \<longrightarrow> e = FileNotFoundError"
    and "\<forall>e. fs job_path = Inl e \<longrightarrow> e = FileNotFoundError"
  shows "fst (match self lib fs resume_path job_path out) = Inr None
         \<and> match self lib fs resume_path job_path out = match self' lib' fs resume_path job_path out"
proof -
  from assms(1)
  have e: "(case fs resume_path of Inr content \<Rightarrow> content | Inl e \<Rightarrow> []) = []
         \<or> (case fs job_path of Inr content \<Rightarrow> content | Inl e \<Rightarrow> []) = []"
    by auto
  note m = match_sentinel [where fs=fs and resume_path=resume_path and job_path=job_path, OF assms(2) assms(3) e]
  show ?thesis
    unfolding m [of self lib out] m [of self' lib' out]
    using load_file_self [of self fs _ _ self'] by simp
qed

theorem match_missing_file_sentinel_witness:
  "fs_of [(''job.txt'', Inr ''Looking for a Python developer'')] ''resume.txt'' = Inl FileNotFoundError
   \<and> fst (match (JobMatcher_init [''the'']) {''system''}
            (fs_of [(''job.txt'', Inr ''Looking for a Python developer'')])
            ''resume.txt'' ''job.txt'' []) = Inr None"
proof -
  have 1: "fs_of [(''job.txt'', Inr ''Looking for a Python developer'')] ''resume.txt'' = Inl FileNotFoundError"
    by (simp add: fs_of_def)
  have 2: "fs_of [(''job.txt'', Inr ''Looking for a Python developer'')] ''job.txt''
             = Inr ''Looking for a Python developer''"
    by (simp add: fs_of_def)
  from match_missing_file_sentinel
         [of "fs_of [(''job.txt'', Inr ''Looking for a Python developer'')]" "''resume.txt''" "''job.txt''"
             "JobMatcher_init [''the'']" "{''system''}" "[]"]
       1 2
  show ?thesis by simp
qed

text \<open>
  Claim C10, as stated, for every pair of paths: the resume exists and is empty, and
  reading the job file raises \<open>PermissionError\<close>. The exception leaves \<open>match\<close>, so the
  sentinel is not returned.
\<close>

theorem match_empty_file_counterexample:
  "fs_of [(''resume.txt'', Inr []), (''job.txt'', Inl PermissionError)] ''resume.txt'' = Inr []
   \<and> fst (match (JobMatcher_init []) {}
            (fs_of [(''resume.txt'', Inr []), (''job.txt'', Inl PermissionError)])
            ''resume.txt'' ''job.txt'' []) = Inl PermissionError"
  by (simp add: match_def load_file_def fs_of_def)

text \<open>
  Claim C10, amended: for every pair of paths whose reads raise nothing but
  \<open>FileNotFoundError\<close>, if either file exists with the empty string as its whole content
  then \<open>match\<close> returns \<open>None\<close>, and it returns the same \<open>None\<close> when an empty file is
  replaced by a missing one: the value returned does not tell the two apart.
\<close>

theorem match_empty_file_like_missing:
  assumes "fs resume_path = Inr [] \<or> fs job_path = Inr []"
    and "\<forall>e. fs resume_path = Inl e \<longrightarrow> e = FileNotFoundError"
    and "\<forall>e. fs job_path = Inl e \<longrightarrow> e = FileNotFoundError"
  shows "fst (match self lib fs resume_path job_path out) = Inr None
         \<and> (\<forall>p. fs p = Inr [] \<longrightarrow>
               fst (match self lib (fs(p := Inl FileNotFoundError)) resume_path job_path out) = Inr None)"
proof (intro conjI allI impI)
  from assms(1)
  have e: "(case fs resume_path of Inr content \<Rightarrow> content | Inl e \<Rightarrow> []) = []
         \<or> (case fs job_path of Inr content \<Rightarrow> content | Inl e \<Rightarrow> []) = []"
    by auto
  show "fst (match self lib fs resume_path job_path out) = Inr None"
    by (simp add: match_sentinel [where fs=fs and resume_path=resume_path and job_path=job_path, OF assms(2) assms(3) e])
next
  fix p assume p: "fs p = Inr []"
  let ?fs = "fs(p := Inl FileNotFoundError)"
  have r: "\<forall>e. ?fs resume_path = Inl e \<longrightarrow> e = FileNotFoundError"
    using assms(2) by simp
  have j: "\<forall>e. ?fs job_path = Inl e \<longrightarrow> e = FileNotFoundError"
    using assms(3) by simp
  from assms(1)
  have e: "(case ?fs resume_path of Inr content \<Rightarrow> content | Inl e \<Rightarrow> []) = []
         \<or> (case ?fs job_path of Inr content \<Rightarrow> content | Inl e \<Rightarrow> []) = []"
    by auto
  show "fst (match self lib ?fs resume_path job_path out) = Inr None"
    by (simp only: match_sentinel [where fs="?fs" and resume_path=resume_path and job_path=job_path, OF r j e] fst_conv)
qed

theorem match_empty_file_like_missing_witness:
  "fs_of [(''resume.txt'', Inr []), (''job.txt'', Inr ''Python and SQL'')] ''resume.txt'' = Inr []
   \<and> fst (match (JobMatcher_init [''and'']) {''system''}
            (fs_of [(''resume.txt'', Inr []), (''job.txt'', Inr ''Python and SQL'')])
            ''resume.txt'' ''job.txt'' []) = Inr None
   \<and> fst (match (JobMatcher_init [''and'']) {''system''}
            ((fs_of [(''resume.txt'', Inr []), (''job.txt'', Inr ''Python and SQL'')])
               (''resume.txt'' := Inl FileNotFoundError))
            ''resume.txt'' ''job.txt'' []) = Inr None"
proof -
  have 1: "fs_of [(''resume.txt'', Inr []), (''job.txt'', Inr ''Python and SQL'')] ''resume.txt'' = Inr []"
    by (simp add: fs_of_def)
  have 2: "fs_of [(''resume.txt'', Inr []), (''job.txt'', Inr ''Python and SQL'')] ''job.txt''
             = Inr ''Python and SQL''"
    by (simp add: fs_of_def)
  from match_empty_file_like_missing
         [of "fs_of [(''resume.txt'', Inr []), (''job.txt'', Inr ''Python and SQL'')]"
             "''resume.txt''" "''job.txt''" "JobMatcher_init [''and'']" "{''system''}" "[]"]
       1 2
  show ?thesis by simp
qed


section \<open>The similarity score on degenerate and on identical documents\<close>

lemma dot_zero_left: "\<forall>a\<in>set x. a = 0 \<Longrightarrow> dot x y = 0"
  unfolding dot_def
proof (induction x arbitrary: y)
  case Nil
  then show ?case by simp
next
  case (Cons a x)
  then show ?case by (cases y) simp_all
qed

lemma l2_normalize_zero: "\<forall>a\<in>set x. a = 0 \<Longrightarrow> l2_normalize x = x"
  by (simp add: l2_normalize_def dot_zero_left)

lemma dot_zero_right: "\<forall>a\<in>set y. a = 0 \<Longrightarrow> dot x y = 0"
  unfolding dot_def
proof (induction x arbitrary: y)
  case Nil
  then show ?case by simp
next
  case (Cons a x)
  then show ?case by (cases y) simp_all
qed

lemma analyze_empty: "analyze v [] = []"
  by (simp add: analyze_def lower_def)

lemma vocabulary_empty_iff:
  "0 < max_features v \<Longrightarrow> vocabulary v docs = [] \<longleftrightarrow> concat (map (analyze v) docs) = []"
proof -
  assume m: "0 < max_features v"
  define terms where "terms = concat (map (analyze v) docs)"
  have "take (max_features v) (sort_key (\<lambda>t. - int (count_list terms t)) (remdups terms)) = []
        \<longleftrightarrow> sort_key (\<lambda>t. - int (count_list terms t)) (remdups terms) = []"
    using m by (simp add: take_eq_Nil)
  also have "\<dots> \<longleftrightarrow> set (sort_key (\<lambda>t. - int (count_list terms t)) (remdups terms)) = {}"
    by (simp only: set_empty)
  also have "\<dots> \<longleftrightarrow> terms = []"
    by simp
  finally show ?thesis
    by (simp add: vocabulary_def Let_def terms_def)
qed

lemma vocabulary_subset: "set (vocabulary v docs) \<subseteq> set (concat (map (analyze v) docs))"
proof -
  have "set (take n xs) \<subseteq> set xs" for n and xs :: "string list"
    by (rule set_take_subset)
  then show ?thesis
    unfolding vocabulary_def Let_def
    by (metis set_remdups set_sort)
qed

lemma score_unfold:
  "calculate_match_score self lib a b =
     (if vocabulary \<lparr>v_stop_words = lib, max_features = 100\<rparr> [a, b] = [] then Inr 0
      else Inr (dot
        (l2_normalize (l2_normalize (map (\<lambda>t. real (count_list (analyze \<lparr>v_stop_words = lib, max_features = 100\<rparr> a) t)
            * idf (length [a, b]) (doc_freq [analyze \<lparr>v_stop_words = lib, max_features = 100\<rparr> a,
                               analyze \<lparr>v_stop_words = lib, max_features = 100\<rparr> b] t))
            (vocabulary \<lparr>v_stop_words = lib, max_features = 100\<rparr> [a, b]))))
        (l2_normalize (l2_normalize (map (\<lambda>t. real (count_list (analyze \<lparr>v_stop_words = lib, max_features = 100\<rparr> b) t)
            * idf (length [a, b]) (doc_freq [analyze \<lparr>v_stop_words = lib, max_features = 100\<rparr> a,
                               analyze \<lparr>v_stop_words = lib, max_features = 100\<rparr> b] t))
            (vocabulary \<lparr>v_stop_words = lib, max_features = 100\<rparr> [a, b]))))))"
  by (simp add: calculate_match_score_def fit_transform_def cosine_similarity_def rows_def Let_def)


lemma score_empty_vocabulary:
  "vocabulary \<lparr>v_stop_words = lib, max_features = 100\<rparr> [a, b] = []
     \<Longrightarrow> calculate_match_score self lib a b = Inr 0"
  by (simp add: score_unfold)

lemma zero_row:
  "\<forall>x\<in>set (l2_normalize (l2_normalize (map (\<lambda>t. real (count_list [] t) * c t) vocab))). x = 0"
proof -
  have z: "\<forall>x\<in>set (map (\<lambda>t. real (count_list [] t) * c t) vocab). x = 0"
    by simp
  then have "l2_normalize (map (\<lambda>t. real (count_list [] t) * c t) vocab)
               = map (\<lambda>t. real (count_list [] t) * c t) vocab"
    by (rule l2_normalize_zero)
  with z show ?thesis by (simp only:)
qed

lemma score_empty_resume: "calculate_match_score self lib [] b = Inr 0"
proof (cases "vocabulary \<lparr>v_stop_words = lib, max_features = 100\<rparr> [[], b] = []")
  case True
  then show ?thesis by (rule score_empty_vocabulary)
next
  case False
  then show ?thesis
    by (simp only: score_unfold if_False analyze_empty dot_zero_left [OF zero_row])
qed

lemma score_empty_job: "calculate_match_score self lib a [] = Inr 0"
proof (cases "vocabulary \<lparr>v_stop_words = lib, max_features = 100\<rparr> [a, []] = []")
  case True
  then show ?thesis by (rule score_empty_vocabulary)
next
  case False
  then show ?thesis
    by (simp only: score_unfold if_False analyze_empty dot_zero_right [OF zero_row])
qed

text \<open>
  Claim C1: for every pair of input strings, if either document is the empty string,
  or no term of the two documents is left after the scorer's own stopword filter (the
  vocabulary is empty and the vectorizer cannot be fitted), then
  \<open>calculate_match_score\<close> returns exactly 0 and raises nothing.
\<close>

theorem degenerate_input_scores_zero:
  "resume_text = [] \<or> job_text = []
     \<or> vocabulary \<lparr>v_stop_words = lib_english, max_features = 100\<rparr> [resume_text, job_text] = []
   \<Longrightarrow> calculate_match_score self lib_english resume_text job_text = Inr 0"
  using score_empty_resume score_empty_job score_empty_vocabulary by blast

theorem degenerate_input_scores_zero_witness:
  "calculate_match_score (JobMatcher_init [''the'']) {''the'', ''find''} [] ''python developer'' = Inr 0
   \<and> vocabulary \<lparr>v_stop_words = {''the'', ''find''}, max_features = 100\<rparr> [''find'', ''the find''] = []
   \<and> calculate_match_score (JobMatcher_init [''the'']) {''the'', ''find''} ''find'' ''the find'' = Inr 0"
proof -
  have v: "vocabulary \<lparr>v_stop_words = {''the'', ''find''}, max_features = 100\<rparr> [''find'', ''the find''] = []"
    by code_simp
  from degenerate_input_scores_zero
         [of "[]" "''python developer''" "{''the'', ''find''}" "JobMatcher_init [''the'']"]
       degenerate_input_scores_zero
         [of "''find''" "''the find''" "{''the'', ''find''}" "JobMatcher_init [''the'']"]
       v
  show ?thesis by simp
qed

lemma dot_scaled: "dot (map (\<lambda>a. a / n) x) (map (\<lambda>a. a / n) x) = dot x x / (n * n)"
  unfolding dot_def by (induction x) (simp_all add: add_divide_distrib)

lemma dot_self_nonneg: "0 \<le> dot x x"
  unfolding dot_def by (induction x) simp_all

lemma l2_normalize_unit:
  assumes "0 < dot x x"
  shows "dot (l2_normalize x) (l2_normalize x) = 1"
proof -
  define n where "n = sqrt (dot x x)"
  from assms have n0: "n \<noteq> 0" and nn: "n * n = dot x x"
    by (simp_all add: n_def)
  from n0 have "l2_normalize x = map (\<lambda>a. a / n) x"
    by (simp add: l2_normalize_def n_def)
  then have "dot (l2_normalize x) (l2_normalize x) = dot x x / (n * n)"
    by (simp only: dot_scaled)
  with assms nn show ?thesis by simp
qed

lemma l2_normalize_of_unit:
  assumes "dot x x = 1"
  shows "l2_normalize x = x"
  using assms by (simp add: l2_normalize_def)

lemma dot_self_pos:
  assumes "x \<noteq> []" and "\<forall>a\<in>set x. 1 \<le> a"
  shows "0 < dot x x"
proof (cases x)
  case Nil
  with assms show ?thesis by simp
next
  case (Cons a y)
  with assms have "1 \<le> a" by simp
  then have "0 < a * a" by simp
  moreover have "0 \<le> dot y y" by (rule dot_self_nonneg)
  ultimately show ?thesis
    using Cons by (simp add: dot_def)
qed

lemma idf_all_documents: "idf n n = 1"
  by (simp add: idf_def)

text \<open>
  Claim C6, as stated, for every normalized text that is not empty: the word
  \<open>system\<close> is in the stopword list of the scorer's library and not in the list of the
  normalizer, so the text \<open>system\<close> is its own normal form, the vocabulary of the scorer
  is empty, and the score of the text with itself is 0, not a value close to 1.
\<close>

theorem identical_documents_counterexample:
  "preprocess_text (JobMatcher_init [''the'', ''and'']) ''system'' = ''system''
   \<and> calculate_match_score (JobMatcher_init [''the'', ''and''])
         {''the'', ''and'', ''system''} ''system'' ''system'' = Inr 0"
proof -
  have 1: "preprocess_text (JobMatcher_init [''the'', ''and'']) ''system'' = ''system''"
    by code_simp
  have "vocabulary \<lparr>v_stop_words = {''the'', ''and'', ''system''}, max_features = 100\<rparr>
          [''system'', ''system''] = []"
    by code_simp
  then have "calculate_match_score (JobMatcher_init [''the'', ''and''])
         {''the'', ''and'', ''system''} ''system'' ''system'' = Inr 0"
    by (rule score_empty_vocabulary)
  with 1 show ?thesis by simp
qed

lemma score_identical_with_terms:
  assumes "analyze \<lparr>v_stop_words = lib_english, max_features = 100\<rparr> X \<noteq> []"
  shows "calculate_match_score self lib_english X X = Inr 1"
proof -
  define v where "v = \<lparr>v_stop_words = lib_english, max_features = 100\<rparr>"
  define ta where "ta = analyze v X"
  define vocab where "vocab = vocabulary v [X, X]"
  define raw where "raw = map (\<lambda>t. real (count_list ta t) * idf (length [X, X]) (doc_freq [ta, ta] t)) vocab"
  have ne: "ta \<noteq> []" using assms by (simp add: ta_def v_def)
  have "0 < max_features v" by (simp add: v_def)
  from vocabulary_empty_iff [OF this, of "[X, X]"] ne
  have vne: "vocab \<noteq> []" by (simp add: vocab_def ta_def)
  have sub: "set vocab \<subseteq> set ta"
    using vocabulary_subset [of v "[X, X]"] by (simp add: vocab_def ta_def)
  define w where "w = (\<lambda>t. real (count_list ta t) * idf (length [X, X]) (doc_freq [ta, ta] t))"
  have entry: "1 \<le> w t" if "t \<in> set vocab" for t
  proof -
    from that sub have t: "t \<in> set ta" by blast
    then have "doc_freq [ta, ta] t = length [X, X]" by (simp add: doc_freq_def)
    then have i: "idf (length [X, X]) (doc_freq [ta, ta] t) = 1"
      by (simp only: idf_all_documents)
    from t have "count_list ta t \<noteq> 0" by (simp add: count_list_0_iff)
    then have "1 \<le> real (count_list ta t)" by simp
    then show ?thesis unfolding w_def i by simp
  qed
  have rw: "raw = map w vocab" unfolding raw_def w_def ..
  have "\<forall>a\<in>set raw. 1 \<le> a"
    unfolding rw using entry by (simp only: set_map) blast
  moreover have "raw \<noteq> []" using vne by (simp add: raw_def)
  ultimately have "0 < dot raw raw" by (intro dot_self_pos)
  then have u: "dot (l2_normalize raw) (l2_normalize raw) = 1" by (rule l2_normalize_unit)
  then have "l2_normalize (l2_normalize raw) = l2_normalize raw" by (rule l2_normalize_of_unit)
  with u have "dot (l2_normalize (l2_normalize raw)) (l2_normalize (l2_normalize raw)) = 1"
    by simp
  moreover have "calculate_match_score self lib_english X X
      = Inr (dot (l2_normalize (l2_normalize raw)) (l2_normalize (l2_normalize raw)))"
    using vne unfolding score_unfold raw_def vocab_def ta_def v_def by (simp only: if_False)
  ultimately show ?thesis by simp
qed

lemma score_identical_without_terms:
  assumes "analyze \<lparr>v_stop_words = lib_english, max_features = 100\<rparr> X = []"
  shows "calculate_match_score self lib_english X X = Inr 0"
proof -
  define v where "v = \<lparr>v_stop_words = lib_english, max_features = 100\<rparr>"
  have "0 < max_features v" by (simp add: v_def)
  from vocabulary_empty_iff [OF this, of "[X, X]"] assms
  have "vocabulary v [X, X] = []" by (simp add: v_def)
  then show ?thesis unfolding v_def by (rule score_empty_vocabulary)
qed

text \<open>
  Claim C6, amended: for every text that keeps at least one term after the scorer's
  own tokenization and stopword filter, the score of the text with itself is 1 in exact
  arithmetic (the double of the program is within rounding of it); and for every text,
  normalized and not empty or otherwise, of which the scorer's filter leaves no term,
  the score of the text with itself is exactly 0.
\<close>

theorem identical_documents_score:
  "(analyze \<lparr>v_stop_words = lib_english, max_features = 100\<rparr> X \<noteq> []
      \<longrightarrow> calculate_match_score self lib_english X X = Inr 1)
   \<and> (analyze \<lparr>v_stop_words = lib_english, max_features = 100\<rparr> X = []
      \<longrightarrow> calculate_match_score self lib_english X X = Inr 0)"
  using score_identical_with_terms score_identical_without_terms by blast

theorem identical_documents_score_witness:
  "analyze \<lparr>v_stop_words = {''the'', ''and'', ''system''}, max_features = 100\<rparr> ''python developer sql''
     = [''python'', ''developer'', ''sql'']
   \<and> calculate_match_score (JobMatcher_init [''the'', ''and'']) {''the'', ''and'', ''system''}
         ''python developer sql'' ''python developer sql'' = Inr 1
   \<and> analyze \<lparr>v_stop_words = {''the'', ''and'', ''system''}, max_features = 100\<rparr> ''the system'' = []
   \<and> calculate_match_score (JobMatcher_init [''the'', ''and'']) {''the'', ''and'', ''system''}
         ''the system'' ''the system'' = Inr 0"
proof -
  have a: "analyze \<lparr>v_stop_words = {''the'', ''and'', ''system''}, max_features = 100\<rparr> ''python developer sql''
     = [''python'', ''developer'', ''sql'']"
    by code_simp
  have b: "analyze \<lparr>v_stop_words = {''the'', ''and'', ''system''}, max_features = 100\<rparr> ''the system'' = []"
    by code_simp
  from identical_documents_score
         [of "{''the'', ''and'', ''system''}" "''python developer sql''" "JobMatcher_init [''the'', ''and'']"]
       identical_documents_score
         [of "{''the'', ''and'', ''system''}" "''the system''" "JobMatcher_init [''the'', ''and'']"]
       a b
  show ?thesis by simp
qed

section \<open>The range of the score in exact arithmetic\<close>

lemma dot_mean_bound: "2 * dot x y \<le> dot x x + dot y y"
proof (induction x arbitrary: y)
  case Nil
  show ?case using dot_self_nonneg [of y] by (simp add: dot_def)
next
  case (Cons a x)
  show ?case
  proof (cases y)
    case Nil
    then show ?thesis using dot_self_nonneg [of "a # x"] by (simp add: dot_def)
  next
    case (Cons b z)
    have "0 \<le> (a - b) * (a - b)" by simp
    then have "2 * (a * b) \<le> a * a + b * b" by (simp add: algebra_simps)
    moreover have "2 * dot x z \<le> dot x x + dot z z" by (rule Cons.IH)
    ultimately show ?thesis using Cons by (simp add: dot_def algebra_simps)
  qed
qed

lemma l2_normalize_at_most_unit: "dot (l2_normalize x) (l2_normalize x) \<le> 1"
proof (cases "dot x x = 0")
  case True
  then show ?thesis by (simp add: l2_normalize_def)
next
  case False
  with dot_self_nonneg [of x] have "0 < dot x x" by simp
  then show ?thesis by (simp add: l2_normalize_unit)
qed

lemma dot_nonneg: "\<forall>a\<in>set x. 0 \<le> a \<Longrightarrow> \<forall>b\<in>set y. 0 \<le> b \<Longrightarrow> 0 \<le> dot x y"
  unfolding dot_def
proof (induction x arbitrary: y)
  case Nil
  then show ?case by simp
next
  case (Cons a x)
  then show ?case by (cases y) simp_all
qed

lemma l2_normalize_nonneg: "\<forall>a\<in>set x. 0 \<le> a \<Longrightarrow> \<forall>a\<in>set (l2_normalize x). 0 \<le> a"
  using dot_self_nonneg [of x] by (auto simp: l2_normalize_def Let_def intro!: divide_nonneg_nonneg)

lemma doc_freq_le: "doc_freq tss t \<le> length tss"
  by (simp add: doc_freq_def)

lemma idf_nonneg: "df \<le> n \<Longrightarrow> 0 \<le> idf n df"
  by (simp add: idf_def)

text \<open>
  In exact arithmetic the score of the model is never an error and lies between 0 and 1:
  the weights are not negative, and the dot product of two vectors of length at most 1
  is at most 1. The program returns the library's double as it is, with no clamp. The
  library scales every row to length 1 in the vectorizer and once more in the cosine, each
  step rounded; for two identical documents of two distinct terms the rounded steps end in
  \<open>1.0000000000000002\<close>, above the bound that holds here.
\<close>

lemma score_model_in_unit_interval:
  "\<exists>s. calculate_match_score self lib a b = Inr s \<and> 0 \<le> s \<and> s \<le> 1"
proof (cases "vocabulary \<lparr>v_stop_words = lib, max_features = 100\<rparr> [a, b] = []")
  case True
  then show ?thesis by (simp add: score_empty_vocabulary)
next
  case False
  define v where "v = \<lparr>v_stop_words = lib, max_features = 100\<rparr>"
  define w where "w = (\<lambda>ts t. real (count_list ts t) * idf (length [a, b]) (doc_freq [analyze v a, analyze v b] t))"
  define ra where "ra = l2_normalize (l2_normalize (map (w (analyze v a)) (vocabulary v [a, b])))"
  define rb where "rb = l2_normalize (l2_normalize (map (w (analyze v b)) (vocabulary v [a, b])))"
  have s: "calculate_match_score self lib a b = Inr (dot ra rb)"
    using False unfolding score_unfold ra_def rb_def w_def v_def by (simp only: if_False)
  have wn: "0 \<le> w ts t" for ts t
    using idf_nonneg [OF doc_freq_le [of "[analyze v a, analyze v b]" t]]
    by (simp add: w_def)
  have "\<forall>x\<in>set ra. 0 \<le> x"
    unfolding ra_def by (intro l2_normalize_nonneg) (simp add: wn)
  moreover have "\<forall>x\<in>set rb. 0 \<le> x"
    unfolding rb_def by (intro l2_normalize_nonneg) (simp add: wn)
  ultimately have lo: "0 \<le> dot ra rb" by (rule dot_nonneg)
  have "dot ra ra \<le> 1" "dot rb rb \<le> 1"
    unfolding ra_def rb_def by (rule l2_normalize_at_most_unit)+
  with dot_mean_bound [of ra rb] have "dot ra rb \<le> 1" by simp
  with lo s show ?thesis by simp
qed


end
